theory Spec2Isabelle
  imports Main
begin

section \<open>Strings and regular expressions of the scripts\<close>

text \<open>
  The two scripts \<^verbatim>\<open>server/scripts/create-admin-user.ts\<close> and
  \<^verbatim>\<open>scripts/create-admin-user.js\<close> receive three JavaScript strings. A JavaScript
  string is a sequence of UTF-16 code units; the model covers the strings whose code units
  are all below 256 (Basic Latin and Latin-1 Supplement), one \<^typ>\<open>char\<close> per code
  unit, so \<open>length\<close> is \<^verbatim>\<open>.length\<close>. On that range \<^verbatim>\<open>toLowerCase\<close> maps
  \<^verbatim>\<open>A-Z\<close> and the accented capitals 0xC0-0xDE (the multiplication sign 0xD7 apart) to
  the code unit 32 above, and leaves every other code unit as it is.
\<close>

definition lower_unit :: "char \<Rightarrow> char" where
  "lower_unit c = (let n = (of_char c :: nat) in
     if (65 \<le> n \<and> n \<le> 90) \<or> (192 \<le> n \<and> n \<le> 214) \<or> (216 \<le> n \<and> n \<le> 222)
     then char_of (n + 32) else c)"

definition toLowerCase :: "string \<Rightarrow> string" where
  "toLowerCase s = map lower_unit s"

text \<open>
  Character classes of the regular expressions. \<^verbatim>\<open>\s\<close> is, below 256, the set
  tab, line feed, vertical tab, form feed, carriage return, space and no-break space.
\<close>

definition in_range :: "char \<Rightarrow> char \<Rightarrow> char \<Rightarrow> bool" where
  "in_range lo hi c = ((of_char lo :: nat) \<le> of_char c \<and> (of_char c :: nat) \<le> of_char hi)"

definition whitespace :: "char \<Rightarrow> bool" where
  "whitespace c = ((of_char c :: nat) \<in> {9, 10, 11, 12, 13, 32, 160})"

definition not_space_at :: "char \<Rightarrow> bool" where
  \<comment> \<open>\<^verbatim>\<open>[^\s@]\<close>\<close>
  "not_space_at c = (\<not> whitespace c \<and> c \<noteq> CHR ''@'')"

definition username_char :: "char \<Rightarrow> bool" where
  \<comment> \<open>\<^verbatim>\<open>[a-zA-Z0-9_-]\<close>\<close>
  "username_char c = (in_range CHR ''a'' CHR ''z'' c \<or> in_range CHR ''A'' CHR ''Z'' c
     \<or> in_range CHR ''0'' CHR ''9'' c \<or> c = CHR ''_'' \<or> c = CHR ''-'')"

definition special_chars :: string where
  \<comment> \<open>the members of \<^verbatim>\<open>[!@#$%^&*(),.?":{}|<>_\-+=\[\]\\\/]\<close>; 0x22 is the double
      quote and 0x5C the backslash\<close>
  "special_chars = ''!@#$%^&*(),.?'' @ [CHR 0x22] @ '':{}|<>_-+=[]'' @ [CHR 0x5C] @ ''/''"

definition special_char :: "char \<Rightarrow> bool" where
  "special_char c = (c \<in> set special_chars)"

text \<open>
  An anchored pattern \<^verbatim>\<open>/^ ... $/\<close> made of character classes, each taken once or
  with \<^verbatim>\<open>+\<close>. \<open>test_anchored\<close> is \<^verbatim>\<open>RegExp.prototype.test\<close> for such a
  pattern: some way of splitting the whole string matches. \<open>test_search\<close> is
  \<^verbatim>\<open>test\<close> for an unanchored single class such as \<^verbatim>\<open>/[A-Z]/\<close>.
\<close>

datatype quantifier = Once | OneOrMore

type_synonym pattern = "((char \<Rightarrow> bool) \<times> quantifier) list"

fun test_anchored :: "pattern \<Rightarrow> string \<Rightarrow> bool" where
  "test_anchored [] [] = True"
| "test_anchored [] (c # cs) = False"
| "test_anchored (i # r) [] = False"
| "test_anchored ((cl, Once) # r) (c # cs) = (cl c \<and> test_anchored r cs)"
| "test_anchored ((cl, OneOrMore) # r) (c # cs) =
     (cl c \<and> (test_anchored r cs \<or> test_anchored ((cl, OneOrMore) # r) cs))"

definition test_search :: "(char \<Rightarrow> bool) \<Rightarrow> string \<Rightarrow> bool" where
  "test_search cl s = list_ex cl s"

definition emailRegex :: pattern where
  \<comment> \<open>\<^verbatim>\<open>/^[^\s@]+@[^\s@]+\.[^\s@]+$/\<close>\<close>
  "emailRegex = [(not_space_at, OneOrMore), ((\<lambda>c. c = CHR ''@''), Once),
     (not_space_at, OneOrMore), ((\<lambda>c. c = CHR ''.''), Once), (not_space_at, OneOrMore)]"

definition usernameRegex :: pattern where
  \<comment> \<open>\<^verbatim>\<open>/^[a-zA-Z0-9_-]+$/\<close>\<close>
  "usernameRegex = [(username_char, OneOrMore)]"

section \<open>Outcomes\<close>

text \<open>
  Every failing path of the scripts prints one message with \<^verbatim>\<open>console.error\<close> and
  calls \<^verbatim>\<open>process.exit(1)\<close>. One constructor stands for each message:
  \<^item> \<open>MissingArguments\<close>: "Missing required arguments" (entry point);
  \<^item> \<open>MissingFields\<close>: "Email, username, and password are required" (JS script only);
  \<^item> \<open>InvalidEmailFormat\<close>: "Invalid email format";
  \<^item> \<open>InvalidUsernameFormat\<close>: "Username can only contain letters, numbers, underscores,
    and hyphens";
  \<^item> \<open>InvalidUsernameLength\<close>: "Username must be between 3 and 20 characters";
  \<^item> \<open>PasswordTooShort\<close>: "Password must be at least 8 characters" (12 in the JS script);
  \<^item> \<open>PasswordMissingUppercase\<close>, \<open>PasswordMissingLowercase\<close>, \<open>PasswordMissingDigit\<close>,
    \<open>PasswordMissingSpecialChar\<close>: "Password must contain at least one ...";
  \<^item> \<open>EmailTaken\<close>: "User with email ... already exists";
  \<^item> \<open>UsernameTaken\<close>: "Username ... is already taken";
  \<^item> \<open>DuplicateAtWrite\<close>: "A user with this email or username already exists." (caught
    error with code P2002);
  \<^item> \<open>StoreUnavailable\<close>: "Cannot connect to database. Please check your DATABASE_URL."
    (code P1001);
  \<^item> \<open>SchemaMissing\<close>: "Database tables do not exist yet!" (code P2021, TS script only);
  \<^item> \<open>UnknownStoreError\<close>: "Full error: ..." (any other caught error).
\<close>

datatype failure =
    MissingArguments | MissingFields
  | InvalidEmailFormat | InvalidUsernameFormat | InvalidUsernameLength
  | PasswordTooShort | PasswordMissingUppercase | PasswordMissingLowercase
  | PasswordMissingDigit | PasswordMissingSpecialChar
  | EmailTaken | UsernameTaken | DuplicateAtWrite
  | StoreUnavailable | SchemaMissing | UnknownStoreError

section \<open>Validation\<close>

text \<open>
  The checks at the head of \<^verbatim>\<open>createAdminUser\<close>, in the order of the source; the
  result is the failure of the first check that exits, or \<open>None\<close> when control reaches
  the lookup. \<open>validate_ts\<close> is lines 33-75 of the TypeScript script, \<open>validate_js\<close>
  lines 47-97 of the JavaScript script (\<^verbatim>\<open>!email\<close> holds of the empty string only).
\<close>

definition validate_ts :: "string \<Rightarrow> string \<Rightarrow> string \<Rightarrow> failure option" where
  "validate_ts em un pw =
    (if \<not> test_anchored emailRegex em then Some InvalidEmailFormat
     else if \<not> test_anchored usernameRegex un then Some InvalidUsernameFormat
     else if length un < 3 \<or> length un > 20 then Some InvalidUsernameLength
     else if length pw < 8 then Some PasswordTooShort
     else if \<not> test_search (in_range CHR ''A'' CHR ''Z'') pw then Some PasswordMissingUppercase
     else if \<not> test_search (in_range CHR ''a'' CHR ''z'') pw then Some PasswordMissingLowercase
     else if \<not> test_search (in_range CHR ''0'' CHR ''9'') pw then Some PasswordMissingDigit
     else if \<not> test_search special_char pw then Some PasswordMissingSpecialChar
     else None)"

definition validate_js :: "string \<Rightarrow> string \<Rightarrow> string \<Rightarrow> failure option" where
  "validate_js em un pw =
    (if em = [] \<or> un = [] \<or> pw = [] then Some MissingFields
     else if \<not> test_anchored emailRegex em then Some InvalidEmailFormat
     else if \<not> test_anchored usernameRegex un then Some InvalidUsernameFormat
     else if length un < 3 \<or> length un > 20 then Some InvalidUsernameLength
     else if length pw < 12 then Some PasswordTooShort
     else if \<not> test_search (in_range CHR ''A'' CHR ''Z'') pw then Some PasswordMissingUppercase
     else if \<not> test_search (in_range CHR ''a'' CHR ''z'') pw then Some PasswordMissingLowercase
     else if \<not> test_search (in_range CHR ''0'' CHR ''9'') pw then Some PasswordMissingDigit
     else if \<not> test_search special_char pw then Some PasswordMissingSpecialChar
     else None)"

text \<open>
  The validator as the specification words it: eight rules, each a predicate on the
  candidate with its failure kind, listed in the order email shape, username charset,
  username length, secret minimum length, uppercase, lowercase, digit, special character;
  the result is the kind of the first rule that the candidate violates. The minimum
  length is the policy's parameter.
\<close>

type_synonym candidate = "string \<times> string \<times> string"

definition spec_rules :: "nat \<Rightarrow> (failure \<times> (candidate \<Rightarrow> bool)) list" where
  "spec_rules min_len =
    [(InvalidEmailFormat, \<lambda>(em, un, pw). test_anchored emailRegex em),
     (InvalidUsernameFormat, \<lambda>(em, un, pw). test_anchored usernameRegex un),
     (InvalidUsernameLength, \<lambda>(em, un, pw). 3 \<le> length un \<and> length un \<le> 20),
     (PasswordTooShort, \<lambda>(em, un, pw). min_len \<le> length pw),
     (PasswordMissingUppercase, \<lambda>(em, un, pw). test_search (in_range CHR ''A'' CHR ''Z'') pw),
     (PasswordMissingLowercase, \<lambda>(em, un, pw). test_search (in_range CHR ''a'' CHR ''z'') pw),
     (PasswordMissingDigit, \<lambda>(em, un, pw). test_search (in_range CHR ''0'' CHR ''9'') pw),
     (PasswordMissingSpecialChar, \<lambda>(em, un, pw). test_search special_char pw)]"

fun spec_first_violation :: "(failure \<times> (candidate \<Rightarrow> bool)) list \<Rightarrow> candidate \<Rightarrow> failure option" where
  "spec_first_violation [] cand = None"
| "spec_first_violation ((kind, holds) # rules) cand =
     (if holds cand then spec_first_violation rules cand else Some kind)"

section \<open>The account store\<close>

text \<open>
  A row of table \<^verbatim>\<open>User\<close>. \<open>public_user\<close> holds the six fields of the
  \<^verbatim>\<open>select\<close> block of \<^verbatim>\<open>prisma.user.create\<close>; a stored row has the
  \<^verbatim>\<open>password\<close> column besides. The field \<^verbatim>\<open>id\<close> is named \<open>user_id\<close>
  (\<open>id\<close> is the identity function of HOL); identifiers and timestamps are opaque to the
  scripts and are natural numbers here.
\<close>

record public_user =
  user_id :: nat
  email :: string
  username :: string
  role :: string
  isActive :: bool
  createdAt :: nat

record user = public_user +
  password :: string

definition select_public :: "user \<Rightarrow> public_user" where
  "select_public r = \<lparr>user_id = user_id r, email = email r, username = username r,
     role = role r, isActive = isActive r, createdAt = createdAt r\<rparr>"

text \<open>
  An error caught by the \<^verbatim>\<open>catch\<close> block; the handler reads only
  \<^verbatim>\<open>error.code\<close>, which an error that does not come from Prisma lacks.
\<close>

datatype js_error = JsError (error_code: "string option")

text \<open>
  The effects of one run, in the order they happen: the lookup with its two keys, the
  call of \<^verbatim>\<open>bcrypt.hash\<close> with the plaintext and the rounds, the
  \<^verbatim>\<open>create\<close> with its \<^verbatim>\<open>data\<close>, and the \<^verbatim>\<open>$disconnect\<close> of the
  \<^verbatim>\<open>finally\<close> block (\<^verbatim>\<open>process.exit\<close> ends the process before it).
\<close>

datatype event =
    FindFirst string string
  | BcryptHash string nat
  | Create string string string string bool
  | Disconnect

record world =
  users :: "user list"
  lookup_choice :: nat
  find_fault :: "js_error option"
  create_fault :: "js_error option"
  next_id :: nat
  now :: nat
  trace :: "event list"

text \<open>
  Modelled from the spec: the lookup of the AccountStore behind the Prisma client (the
  schema and the client are not among the sources). Section 6 gives the store a lookup by
  email or username that returns at most one account and may signal that the store is
  unreachable or its schema absent; the scripts read these signals as the codes P1001 and
  P2021. The filter of the scripts, \<^verbatim>\<open>{ OR: [{ email: e }, { username: u }] }\<close>,
  compares the stored columns with \<open>e\<close> and \<open>u\<close> for equality, as the SQLite and
  PostgreSQL stores of the setup guide compare text. The query has no
  \<^verbatim>\<open>orderBy\<close>: when several rows match, the store decides which one it returns.
  \<open>lookup_choice\<close> is that decision for the lookup of this run, a position among the
  matching rows; every number is allowed, so every row that matches can be the answer.
  \<open>find_fault\<close> is the error, if any, with which the store rejects the lookup of this
  run.
\<close>

definition matching_rows :: "user list \<Rightarrow> string \<Rightarrow> string \<Rightarrow> user list" where
  "matching_rows us e u = filter (\<lambda>r. email r = e \<or> username r = u) us"

definition choose_row :: "nat \<Rightarrow> user list \<Rightarrow> user option" where
  "choose_row n rows = (if rows = [] then None else Some (rows ! (n mod length rows)))"

definition lookup_result :: "world \<Rightarrow> string \<Rightarrow> string \<Rightarrow> user option" where
  "lookup_result w e u = choose_row (lookup_choice w) (matching_rows (users w) e u)"

definition findFirst :: "world \<Rightarrow> string \<Rightarrow> string \<Rightarrow> (js_error + user option) \<times> world" where
  "findFirst w e u =
    (let w' = w\<lparr>trace := trace w @ [FindFirst e u]\<rparr> in
     case find_fault w of
       Some err \<Rightarrow> (Inl err, w')
     | None \<Rightarrow> (Inr (lookup_result w e u), w'))"

text \<open>
  Modelled from the spec: the create of the AccountStore. Section 6 has it fail with a
  distinguishable uniqueness-violation signal (code P2002 for the scripts) when an account
  with this email or this username exists; the unique constraints compare the columns
  for equality, as the lookup does. Otherwise the store assigns the identifier and the
  creation time and returns the selected fields. \<open>create_fault\<close> is the error, if any,
  with which the store rejects the write of this run.
\<close>

definition create ::
  "world \<Rightarrow> string \<Rightarrow> string \<Rightarrow> string \<Rightarrow> string \<Rightarrow> bool \<Rightarrow> (js_error + public_user) \<times> world" where
  "create w e u h rl act =
    (let w' = w\<lparr>trace := trace w @ [Create e u h rl act]\<rparr> in
     case create_fault w of
       Some err \<Rightarrow> (Inl err, w')
     | None \<Rightarrow>
        if list_ex (\<lambda>r. email r = e \<or> username r = u) (users w)
        then (Inl (JsError (Some ''P2002'')), w')
        else
          (let r = \<lparr>user_id = next_id w, email = e, username = u, role = rl,
                    isActive = act, createdAt = now w, password = h\<rparr>
           in (Inr (select_public r), w'\<lparr>users := users w @ [r], next_id := Suc (next_id w)\<rparr>)))"

section \<open>The provisioning pipeline\<close>

text \<open>
  \<^verbatim>\<open>bcrypt.hash(password, SALT_ROUNDS)\<close> draws a fresh salt on every call; the
  function of type \<open>hasher\<close> is the call of one run, its salt fixed.
\<close>

type_synonym hasher = "string \<Rightarrow> nat \<Rightarrow> string"

definition SALT_ROUNDS :: nat where
  "SALT_ROUNDS = 12"

text \<open>The \<^verbatim>\<open>catch\<close> blocks: lines 132-150 of the TS script, 154-165 of the JS script.\<close>

definition handle_error_ts :: "js_error \<Rightarrow> failure" where
  "handle_error_ts err =
    (if error_code err = Some ''P2002'' then DuplicateAtWrite
     else if error_code err = Some ''P1001'' then StoreUnavailable
     else if error_code err = Some ''P2021'' then SchemaMissing
     else UnknownStoreError)"

definition handle_error_js :: "js_error \<Rightarrow> failure" where
  "handle_error_js err =
    (if error_code err = Some ''P2002'' then DuplicateAtWrite
     else if error_code err = Some ''P1001'' then StoreUnavailable
     else UnknownStoreError)"

text \<open>
  From "Hash password" to the end of the \<^verbatim>\<open>try\<close> block (TS lines 98-130, JS lines
  120-152), the same text in both scripts.
\<close>

definition hash_and_create ::
  "(js_error \<Rightarrow> failure) \<Rightarrow> hasher \<Rightarrow> world \<Rightarrow> string \<Rightarrow> string \<Rightarrow> string
     \<Rightarrow> (failure + public_user) \<times> world" where
  "hash_and_create handler bcrypt_hash w em un pw =
    (let hashedPassword = bcrypt_hash pw SALT_ROUNDS;
         w1 = w\<lparr>trace := trace w @ [BcryptHash pw SALT_ROUNDS]\<rparr>
     in case create w1 (toLowerCase em) un hashedPassword ''ADMIN'' True of
          (Inl err, w2) \<Rightarrow> (Inl (handler err), w2)
        | (Inr created, w2) \<Rightarrow> (Inr created, w2\<lparr>trace := trace w2 @ [Disconnect]\<rparr>))"

text \<open>
  From "Check if user already exists" on (TS lines 77-130, JS lines 99-152): the lookup,
  the two comparisons on the record found, and the fall through to hashing when neither
  comparison holds or nothing was found.
\<close>

definition check_and_create ::
  "(js_error \<Rightarrow> failure) \<Rightarrow> hasher \<Rightarrow> world \<Rightarrow> string \<Rightarrow> string \<Rightarrow> string
     \<Rightarrow> (failure + public_user) \<times> world" where
  "check_and_create handler bcrypt_hash w em un pw =
    (case findFirst w (toLowerCase em) (toLowerCase un) of
       (Inl err, w1) \<Rightarrow> (Inl (handler err), w1)
     | (Inr None, w1) \<Rightarrow> hash_and_create handler bcrypt_hash w1 em un pw
     | (Inr (Some existingUser), w1) \<Rightarrow>
         if toLowerCase (email existingUser) = toLowerCase em then (Inl EmailTaken, w1)
         else if toLowerCase (username existingUser) = toLowerCase un then (Inl UsernameTaken, w1)
         else hash_and_create handler bcrypt_hash w1 em un pw)"

definition createAdminUser_ts ::
  "hasher \<Rightarrow> world \<Rightarrow> string \<Rightarrow> string \<Rightarrow> string \<Rightarrow> (failure + public_user) \<times> world" where
  "createAdminUser_ts bcrypt_hash w em un pw =
    (case validate_ts em un pw of
       Some f \<Rightarrow> (Inl f, w)
     | None \<Rightarrow> check_and_create handle_error_ts bcrypt_hash w em un pw)"

definition createAdminUser_js ::
  "hasher \<Rightarrow> world \<Rightarrow> string \<Rightarrow> string \<Rightarrow> string \<Rightarrow> (failure + public_user) \<times> world" where
  "createAdminUser_js bcrypt_hash w em un pw =
    (case validate_js em un pw of
       Some f \<Rightarrow> (Inl f, w)
     | None \<Rightarrow> check_and_create handle_error_js bcrypt_hash w em un pw)"

text \<open>
  The entry points (TS lines 157-176, JS lines 172-191): \<open>args\<close> is
  \<^verbatim>\<open>process.argv.slice(2)\<close>; with three or more arguments the first three are the
  candidate. A run that ends without \<^verbatim>\<open>process.exit(1)\<close> has exit code 0.
\<close>

definition main_ts :: "hasher \<Rightarrow> world \<Rightarrow> string list \<Rightarrow> (failure + public_user) \<times> world" where
  "main_ts bcrypt_hash w args =
    (if length args < 3 then (Inl MissingArguments, w)
     else createAdminUser_ts bcrypt_hash w (args ! 0) (args ! 1) (args ! 2))"

definition main_js :: "hasher \<Rightarrow> world \<Rightarrow> string list \<Rightarrow> (failure + public_user) \<times> world" where
  "main_js bcrypt_hash w args =
    (if length args < 3 then (Inl MissingArguments, w)
     else createAdminUser_js bcrypt_hash w (args ! 0) (args ! 1) (args ! 2))"

definition exit_code :: "failure + public_user \<Rightarrow> nat" where
  "exit_code res = (case res of Inl f \<Rightarrow> 1 | Inr created \<Rightarrow> 0)"

text \<open>
  Invariant (a) of the data model: emails are pairwise different, and usernames are
  pairwise different, when compared in lower case.
\<close>

definition unique_ci :: "user list \<Rightarrow> bool" where
  "unique_ci us = (distinct (map (\<lambda>r. toLowerCase (email r)) us)
     \<and> distinct (map (\<lambda>r. toLowerCase (username r)) us))"


text \<open>
  A candidate collides with the store when some account has the same email, or the same
  username, in lower case.
\<close>

definition email_collides :: "user list \<Rightarrow> string \<Rightarrow> bool" where
  "email_collides us em = list_ex (\<lambda>r. toLowerCase (email r) = toLowerCase em) us"

definition username_collides :: "user list \<Rightarrow> string \<Rightarrow> bool" where
  "username_collides us un = list_ex (\<lambda>r. toLowerCase (username r) = toLowerCase un) us"

definition collides :: "user list \<Rightarrow> string \<Rightarrow> string \<Rightarrow> bool" where
  "collides us em un = (email_collides us em \<or> username_collides us un)"

text \<open>The effects of a run that starts in \<open>w\<close> and ends in \<open>w'\<close>.\<close>

definition stages_run :: "world \<Rightarrow> world \<Rightarrow> event list" where
  "stages_run w w' = drop (length (trace w)) (trace w')"


definition empty_store :: world where
  "empty_store = \<lparr>users = [], lookup_choice = 0, find_fault = None, create_fault = None, next_id = 1, now = 0,
     trace = []\<rparr>"

text \<open>
  Two stores for the worked examples: \<open>store_one\<close> holds the account that the script
  creates from an empty store for \<^verbatim>\<open>root@example.com Admin\<close>, \<open>store_two\<close> the
  accounts of \<^verbatim>\<open>alice\<close> and \<^verbatim>\<open>bob\<close>, in a store that returns the second of two
  matching rows.
\<close>

definition store_one :: world where
  "store_one = \<lparr>users = [\<lparr>user_id = 1, email = ''root@example.com'', username = ''Admin'',
       role = ''ADMIN'', isActive = True, createdAt = 0,
       password = ''$2b$12$SecurePass123!''\<rparr>],
     lookup_choice = 0, find_fault = None, create_fault = None, next_id = 2, now = 0,
     trace = []\<rparr>"

definition store_two :: world where
  "store_two = \<lparr>users = [\<lparr>user_id = 1, email = ''alice@example.com'', username = ''alice'',
       role = ''ADMIN'', isActive = True, createdAt = 0,
       password = ''$2b$12$SecurePass123!''\<rparr>,
      \<lparr>user_id = 2, email = ''bob@example.com'', username = ''bob'',
       role = ''ADMIN'', isActive = True, createdAt = 0,
       password = ''$2b$12$SecurePass123!''\<rparr>],
     lookup_choice = 1, find_fault = None, create_fault = None, next_id = 3, now = 0,
     trace = []\<rparr>"

text \<open>
  A stand-in for one call of \<^verbatim>\<open>bcrypt.hash\<close> in the worked examples below: it puts
  the prefix of a 12-round bcrypt hash before its input.
\<close>

definition example_hash :: hasher where
  "example_hash pw rounds = ''$2b$12$'' @ pw"

section \<open>Lower case and the pattern matcher\<close>

lemma lower_unit_idem: "lower_unit (lower_unit c) = lower_unit c"
  unfolding lower_unit_def Let_def by (auto simp: mod_if)

lemma toLowerCase_idem: "toLowerCase (toLowerCase s) = toLowerCase s"
  by (simp add: toLowerCase_def lower_unit_idem)

lemma length_toLowerCase: "length (toLowerCase s) = length s"
  by (simp add: toLowerCase_def)

lemma test_anchored_once:
  "test_anchored ((cl, Once) # r) s \<longleftrightarrow> (\<exists>c cs. s = c # cs \<and> cl c \<and> test_anchored r cs)"
  by (cases s) auto

lemma test_anchored_plus:
  "test_anchored ((cl, OneOrMore) # r) s \<longleftrightarrow>
     (\<exists>x y. s = x @ y \<and> x \<noteq> [] \<and> list_all cl x \<and> test_anchored r y)"
proof (induction s)
  case Nil
  then show ?case by simp
next
  case (Cons c cs)
  show ?case
  proof
    assume "test_anchored ((cl, OneOrMore) # r) (c # cs)"
    then have c: "cl c" and alt: "test_anchored r cs \<or> test_anchored ((cl, OneOrMore) # r) cs"
      by simp_all
    from alt show "\<exists>x y. c # cs = x @ y \<and> x \<noteq> [] \<and> list_all cl x \<and> test_anchored r y"
    proof
      assume "test_anchored r cs"
      with c have "c # cs = [c] @ cs \<and> [c] \<noteq> [] \<and> list_all cl [c] \<and> test_anchored r cs"
        by simp
      then show ?thesis by blast
    next
      assume "test_anchored ((cl, OneOrMore) # r) cs"
      with Cons.IH obtain x y where "cs = x @ y" "x \<noteq> []" "list_all cl x" "test_anchored r y"
        by blast
      with c have "c # cs = (c # x) @ y \<and> c # x \<noteq> [] \<and> list_all cl (c # x) \<and> test_anchored r y"
        by simp
      then show ?thesis by blast
    qed
  next
    assume "\<exists>x y. c # cs = x @ y \<and> x \<noteq> [] \<and> list_all cl x \<and> test_anchored r y"
    then obtain x y where xy: "c # cs = x @ y" "x \<noteq> []" "list_all cl x" "test_anchored r y"
      by blast
    then obtain x' where x: "x = c # x'" "cs = x' @ y"
      by (cases x) auto
    show "test_anchored ((cl, OneOrMore) # r) (c # cs)"
    proof (cases "x' = []")
      case True
      with x xy show ?thesis by simp
    next
      case False
      with x xy have "test_anchored ((cl, OneOrMore) # r) cs"
        using Cons.IH by auto
      with x xy show ?thesis by simp
    qed
  qed
qed

lemma test_anchored_end: "test_anchored [] s \<longleftrightarrow> s = []"
  by (cases s) simp_all

lemma usernameRegex_iff:
  "test_anchored usernameRegex un \<longleftrightarrow> un \<noteq> [] \<and> list_all username_char un"
  by (auto simp: usernameRegex_def test_anchored_plus test_anchored_end)

lemma emailRegex_iff:
  "test_anchored emailRegex em \<longleftrightarrow>
     (\<exists>x y z. em = x @ ''@'' @ y @ ''.'' @ z \<and> x \<noteq> [] \<and> y \<noteq> [] \<and> z \<noteq> []
        \<and> list_all not_space_at x \<and> list_all not_space_at y \<and> list_all not_space_at z)"
  (is "?L \<longleftrightarrow> ?R")
proof
  assume ?L
  then obtain x y z where "em = x @ CHR ''@'' # y @ CHR ''.'' # z" "x \<noteq> []" "y \<noteq> []" "z \<noteq> []"
      "list_all not_space_at x" "list_all not_space_at y" "list_all not_space_at z"
    unfolding emailRegex_def test_anchored_plus test_anchored_once test_anchored_end
    by auto
  then show ?R by auto
next
  assume ?R
  then obtain x y z where e: "em = x @ CHR ''@'' # y @ CHR ''.'' # z" and n: "x \<noteq> []" "y \<noteq> []" "z \<noteq> []"
      and c: "list_all not_space_at x" "list_all not_space_at y" "list_all not_space_at z"
    by auto
  have 1: "test_anchored [(not_space_at, OneOrMore)] z"
    unfolding test_anchored_plus test_anchored_end using n c by simp
  have 2: "test_anchored [((\<lambda>c. c = CHR ''.''), Once), (not_space_at, OneOrMore)] (CHR ''.'' # z)"
    using 1 by simp
  have 3: "test_anchored [(not_space_at, OneOrMore), ((\<lambda>c. c = CHR ''.''), Once), (not_space_at, OneOrMore)] (y @ CHR ''.'' # z)"
    unfolding test_anchored_plus [of _ "[_, _]"] using 2 n c by blast
  have 4: "test_anchored [((\<lambda>c. c = CHR ''@''), Once), (not_space_at, OneOrMore), ((\<lambda>c. c = CHR ''.''), Once), (not_space_at, OneOrMore)] (CHR ''@'' # y @ CHR ''.'' # z)"
    using 3 by simp
  show ?L
    unfolding emailRegex_def e test_anchored_plus [of _ "[_, _, _, _]"] using 4 n c by blast
qed

section \<open>The stages of the pipeline\<close>

lemma choose_row_Some:
  assumes "choose_row n rows = Some r"
  shows "r \<in> set rows"
proof -
  from assms have ne: "rows \<noteq> []" and r: "r = rows ! (n mod length rows)"
    by (auto simp: choose_row_def split: if_splits)
  from ne have "n mod length rows < length rows"
    by simp
  with r show ?thesis
    by simp
qed

lemma lookup_result_Some:
  assumes "lookup_result w e u = Some r"
  shows "r \<in> set (users w)" and "email r = e \<or> username r = u"
  using choose_row_Some [OF assms [unfolded lookup_result_def]]
  by (simp_all add: matching_rows_def)

lemma lookup_result_None_iff:
  "lookup_result w e u = None \<longleftrightarrow> \<not> list_ex (\<lambda>r. email r = e \<or> username r = u) (users w)"
  by (auto simp: lookup_result_def choose_row_def matching_rows_def filter_empty_conv list_ex_iff)

lemma found_matches_ci:
  assumes "lookup_result w (toLowerCase em) (toLowerCase un) = Some r"
  shows "toLowerCase (email r) = toLowerCase em \<or> toLowerCase (username r) = toLowerCase un"
proof -
  from assms have "email r = toLowerCase em \<or> username r = toLowerCase un"
    by (rule lookup_result_Some(2))
  then show ?thesis
    by (auto simp: toLowerCase_idem)
qed

lemma findFirst_Some:
  assumes "findFirst w e u = (Inr (Some r), w1)"
  shows "find_fault w = None" and "lookup_result w e u = Some r"
    and "w1 = w\<lparr>trace := trace w @ [FindFirst e u]\<rparr>"
  using assms by (auto simp: findFirst_def Let_def split: option.splits)

lemma check_and_create_found:
  assumes "findFirst w (toLowerCase em) (toLowerCase un) = (Inr (Some r), w1)"
  shows "check_and_create handler bcrypt_hash w em un pw =
     (Inl (if toLowerCase (email r) = toLowerCase em then EmailTaken else UsernameTaken), w1)"
proof -
  have "toLowerCase (email r) = toLowerCase em \<or> toLowerCase (username r) = toLowerCase un"
    using findFirst_Some(2) [OF assms] by (rule found_matches_ci)
  then show ?thesis
    using assms by (auto simp: check_and_create_def)
qed

lemma hash_and_create_result:
  "hash_and_create handler bcrypt_hash w em un pw =
    (let hashed = bcrypt_hash pw SALT_ROUNDS;
         evs = [BcryptHash pw SALT_ROUNDS, Create (toLowerCase em) un hashed ''ADMIN'' True]
     in case create_fault w of
          Some err \<Rightarrow> (Inl (handler err), w\<lparr>trace := trace w @ evs\<rparr>)
        | None \<Rightarrow>
           if list_ex (\<lambda>r. email r = toLowerCase em \<or> username r = un) (users w)
           then (Inl (handler (JsError (Some ''P2002''))), w\<lparr>trace := trace w @ evs\<rparr>)
           else (Inr \<lparr>user_id = next_id w, email = toLowerCase em, username = un,
                      role = ''ADMIN'', isActive = True, createdAt = now w\<rparr>,
                 w\<lparr>users := users w @ [\<lparr>user_id = next_id w, email = toLowerCase em,
                        username = un, role = ''ADMIN'', isActive = True, createdAt = now w,
                        password = hashed\<rparr>],
                   next_id := Suc (next_id w),
                   trace := trace w @ evs @ [Disconnect]\<rparr>))"
  by (simp add: hash_and_create_def create_def select_public_def Let_def split: option.splits)

lemma check_and_create_not_found:
  assumes "find_fault w = None"
    and "lookup_result w (toLowerCase em) (toLowerCase un) = None"
  shows "check_and_create handler bcrypt_hash w em un pw =
    hash_and_create handler bcrypt_hash
      (w\<lparr>trace := trace w @ [FindFirst (toLowerCase em) (toLowerCase un)]\<rparr>) em un pw"
  using assms by (simp add: check_and_create_def findFirst_def Let_def)

lemma check_and_create_fault:
  assumes "find_fault w = Some err"
  shows "check_and_create handler bcrypt_hash w em un pw =
    (Inl (handler err), w\<lparr>trace := trace w @ [FindFirst (toLowerCase em) (toLowerCase un)]\<rparr>)"
  using assms by (simp add: check_and_create_def findFirst_def Let_def)

lemma check_and_create_found':
  assumes "find_fault w = None"
    and "lookup_result w (toLowerCase em) (toLowerCase un) = Some r"
  shows "check_and_create handler bcrypt_hash w em un pw =
     (Inl (if toLowerCase (email r) = toLowerCase em then EmailTaken else UsernameTaken),
      w\<lparr>trace := trace w @ [FindFirst (toLowerCase em) (toLowerCase un)]\<rparr>)"
  by (rule check_and_create_found) (simp add: findFirst_def Let_def assms)

lemma handler_not_conflict:
  "handle_error_ts err \<noteq> EmailTaken" "handle_error_ts err \<noteq> UsernameTaken"
  "handle_error_js err \<noteq> EmailTaken" "handle_error_js err \<noteq> UsernameTaken"
  by (simp_all add: handle_error_ts_def handle_error_js_def)

lemma check_and_create_stages:
  "stages_run w (snd (check_and_create handler bcrypt_hash w em un pw)) =
    (let a = FindFirst (toLowerCase em) (toLowerCase un);
         b = BcryptHash pw SALT_ROUNDS;
         c = Create (toLowerCase em) un (bcrypt_hash pw SALT_ROUNDS) ''ADMIN'' True
     in if find_fault w \<noteq> None
           \<or> lookup_result w (toLowerCase em) (toLowerCase un) \<noteq> None
        then [a]
        else if create_fault w \<noteq> None
           \<or> list_ex (\<lambda>r. email r = toLowerCase em \<or> username r = un) (users w)
        then [a, b, c]
        else [a, b, c, Disconnect])"
proof (cases "find_fault w")
  case (Some err)
  then show ?thesis
    by (simp add: check_and_create_fault stages_run_def Let_def)
next
  case None
  show ?thesis
  proof (cases "lookup_result w (toLowerCase em) (toLowerCase un)")
    case (Some r)
    with None show ?thesis
      by (simp add: check_and_create_found' stages_run_def Let_def)
  next
    case nf: None
    with None show ?thesis
      by (simp add: check_and_create_not_found hash_and_create_result stages_run_def Let_def
          split: option.splits)
  qed
qed

lemma check_and_create_conflict_world:
  assumes "handler = handle_error_ts \<or> handler = handle_error_js"
    and "fst (check_and_create handler bcrypt_hash w em un pw) = Inl EmailTaken
       \<or> fst (check_and_create handler bcrypt_hash w em un pw) = Inl UsernameTaken"
  shows "snd (check_and_create handler bcrypt_hash w em un pw) =
     w\<lparr>trace := trace w @ [FindFirst (toLowerCase em) (toLowerCase un)]\<rparr>"
proof (cases "find_fault w")
  case (Some err)
  then show ?thesis
    by (simp add: check_and_create_fault)
next
  case None
  show ?thesis
  proof (cases "lookup_result w (toLowerCase em) (toLowerCase un)")
    case (Some r)
    with None show ?thesis
      by (simp add: check_and_create_found')
  next
    case nf: None
    with None assms show ?thesis
      by (auto simp add: check_and_create_not_found hash_and_create_result Let_def handler_not_conflict
          split: option.splits if_splits)
  qed
qed

lemma exact_match_collides:
  assumes "r \<in> set us"
    and "email r = toLowerCase em \<or> username r = toLowerCase un \<or> username r = un"
  shows "collides us em un"
proof -
  from assms(2) have "toLowerCase (email r) = toLowerCase em
      \<or> toLowerCase (username r) = toLowerCase un"
    by (auto simp: toLowerCase_idem)
  with assms(1) show ?thesis
    unfolding collides_def email_collides_def username_collides_def list_ex_iff by blast
qed

lemma no_collision_no_match:
  assumes "\<not> collides (users w) em un"
  shows "lookup_result w (toLowerCase em) (toLowerCase un) = None"
    and "\<not> list_ex (\<lambda>r. email r = toLowerCase em \<or> username r = un) (users w)"
  using assms exact_match_collides [of _ "users w" em un]
  by (auto simp: lookup_result_None_iff list_ex_iff)

lemma check_and_create_fresh:
  assumes "find_fault w = None" and "create_fault w = None" and "\<not> collides (users w) em un"
  shows "check_and_create handler bcrypt_hash w em un pw =
    (Inr \<lparr>user_id = next_id w, email = toLowerCase em, username = un,
          role = ''ADMIN'', isActive = True, createdAt = now w\<rparr>,
     w\<lparr>users := users w @ [\<lparr>user_id = next_id w, email = toLowerCase em,
            username = un, role = ''ADMIN'', isActive = True, createdAt = now w,
            password = bcrypt_hash pw SALT_ROUNDS\<rparr>],
       next_id := Suc (next_id w),
       trace := trace w @ [FindFirst (toLowerCase em) (toLowerCase un),
         BcryptHash pw SALT_ROUNDS,
         Create (toLowerCase em) un (bcrypt_hash pw SALT_ROUNDS) ''ADMIN'' True, Disconnect]\<rparr>)"
  using assms no_collision_no_match [OF assms(3)]
  by (simp add: check_and_create_not_found hash_and_create_result Let_def)

lemma check_and_create_success:
  assumes "check_and_create handler bcrypt_hash w em un pw = (Inr created, w')"
  shows "created = \<lparr>user_id = next_id w, email = toLowerCase em, username = un,
          role = ''ADMIN'', isActive = True, createdAt = now w\<rparr>"
    and "users w' = users w @ [\<lparr>user_id = next_id w, email = toLowerCase em,
            username = un, role = ''ADMIN'', isActive = True, createdAt = now w,
            password = bcrypt_hash pw SALT_ROUNDS\<rparr>]"
proof -
  have nf: "find_fault w = None"
    using assms by (cases "find_fault w") (simp_all add: check_and_create_fault)
  have nr: "lookup_result w (toLowerCase em) (toLowerCase un) = None"
    using assms nf
    by (cases "lookup_result w (toLowerCase em) (toLowerCase un)")
      (simp_all add: check_and_create_found')
  have eq: "hash_and_create handler bcrypt_hash
      (w\<lparr>trace := trace w @ [FindFirst (toLowerCase em) (toLowerCase un)]\<rparr>) em un pw
      = (Inr created, w')"
    using assms check_and_create_not_found [OF nf nr] by simp
  from eq show "created = \<lparr>user_id = next_id w, email = toLowerCase em, username = un,
          role = ''ADMIN'', isActive = True, createdAt = now w\<rparr>"
    by (auto simp: hash_and_create_result Let_def split: option.splits if_splits)
  from eq show "users w' = users w @ [\<lparr>user_id = next_id w, email = toLowerCase em,
            username = un, role = ''ADMIN'', isActive = True, createdAt = now w,
            password = bcrypt_hash pw SALT_ROUNDS\<rparr>]"
    by (auto simp: hash_and_create_result Let_def split: option.splits if_splits)
qed

lemma script_unfold:
  assumes "(validate, createAdminUser) = (validate_ts, createAdminUser_ts)
         \<or> (validate, createAdminUser) = (validate_js, createAdminUser_js)"
  shows "\<exists>handler. (handler = handle_error_ts \<or> handler = handle_error_js)
    \<and> (\<forall>bcrypt_hash w em un pw. createAdminUser bcrypt_hash w em un pw =
      (case validate em un pw of Some f \<Rightarrow> (Inl f, w)
       | None \<Rightarrow> check_and_create handler bcrypt_hash w em un pw))"
proof -
  from assms consider
      (ts) "validate = validate_ts" "createAdminUser = createAdminUser_ts"
    | (js) "validate = validate_js" "createAdminUser = createAdminUser_js"
    by auto
  then show ?thesis
  proof cases
    case ts
    show ?thesis
      by (rule exI [of _ handle_error_ts]) (simp add: ts createAdminUser_ts_def)
  next
    case js
    show ?thesis
      by (rule exI [of _ handle_error_js]) (simp add: js createAdminUser_js_def)
  qed
qed

lemma ts_script:
  "(validate_ts, createAdminUser_ts) = (validate_ts, createAdminUser_ts)
   \<or> (validate_ts, createAdminUser_ts) = (validate_js, createAdminUser_js)"
  by simp

lemma js_script:
  "(validate_js, createAdminUser_js) = (validate_ts, createAdminUser_ts)
   \<or> (validate_js, createAdminUser_js) = (validate_js, createAdminUser_js)"
  by simp

text \<open>
  The lookup compares the stored columns with the candidate's keys in lower case, so it
  finds every collision in a store whose emails and usernames are all stored in lower
  case.
\<close>

lemma collision_found_when_rows_lower_case:
  assumes "find_fault w = None"
    and "\<forall>r \<in> set (users w). email r = toLowerCase (email r)
          \<and> username r = toLowerCase (username r)"
    and "collides (users w) em un"
  shows "fst (check_and_create handler bcrypt_hash w em un pw) \<in> {Inl EmailTaken, Inl UsernameTaken}"
    and "users (snd (check_and_create handler bcrypt_hash w em un pw)) = users w"
proof -
  let ?P = "\<lambda>r. email r = toLowerCase em \<or> username r = toLowerCase un"
  from assms(3) obtain a where "a \<in> set (users w)"
      and "toLowerCase (email a) = toLowerCase em \<or> toLowerCase (username a) = toLowerCase un"
    unfolding collides_def email_collides_def username_collides_def list_ex_iff by blast
  with assms(2) have "a \<in> set (users w)" and "?P a"
    by auto
  then have "lookup_result w (toLowerCase em) (toLowerCase un) \<noteq> None"
    by (auto simp: lookup_result_None_iff list_ex_iff)
  then obtain r where r: "lookup_result w (toLowerCase em) (toLowerCase un) = Some r"
    by blast
  note res = check_and_create_found' [OF assms(1) r, of handler bcrypt_hash pw]
  show "fst (check_and_create handler bcrypt_hash w em un pw) \<in> {Inl EmailTaken, Inl UsernameTaken}"
    by (simp add: res)
  show "users (snd (check_and_create handler bcrypt_hash w em un pw)) = users w"
    by (simp add: res)
qed

text \<open>
  The order of the stages. A candidate that fails validation gets that failure and the
  world is unchanged. When the lookup returns a record the result is a conflict, and a
  run that ends in \<open>EmailTaken\<close> or \<open>UsernameTaken\<close> has performed the lookup and nothing
  else. The effects of any run are an initial part of lookup, hash, create, disconnect;
  the lookup happens only after validation passed, and the hash only after the lookup
  succeeded and returned nothing.
\<close>

lemma stages_follow_success:
  assumes "(validate, createAdminUser) = (validate_ts, createAdminUser_ts)
         \<or> (validate, createAdminUser) = (validate_js, createAdminUser_js)"
  shows "(\<forall>f. validate em un pw = Some f \<longrightarrow>
            createAdminUser bcrypt_hash w em un pw = (Inl f, w))
    \<and> (\<forall>r w1. validate em un pw = None
            \<and> findFirst w (toLowerCase em) (toLowerCase un) = (Inr (Some r), w1) \<longrightarrow>
          fst (createAdminUser bcrypt_hash w em un pw) \<in> {Inl EmailTaken, Inl UsernameTaken})
    \<and> (fst (createAdminUser bcrypt_hash w em un pw) \<in> {Inl EmailTaken, Inl UsernameTaken} \<longrightarrow>
          snd (createAdminUser bcrypt_hash w em un pw) =
            w\<lparr>trace := trace w @ [FindFirst (toLowerCase em) (toLowerCase un)]\<rparr>)
    \<and> (stages_run w (snd (createAdminUser bcrypt_hash w em un pw)) \<noteq> [] \<longrightarrow>
          validate em un pw = None)
    \<and> (BcryptHash pw SALT_ROUNDS \<in> set (stages_run w (snd (createAdminUser bcrypt_hash w em un pw))) \<longrightarrow>
          validate em un pw = None \<and> find_fault w = None
          \<and> lookup_result w (toLowerCase em) (toLowerCase un) = None)
    \<and> (\<exists>n. stages_run w (snd (createAdminUser bcrypt_hash w em un pw)) =
          take n [FindFirst (toLowerCase em) (toLowerCase un), BcryptHash pw SALT_ROUNDS,
            Create (toLowerCase em) un (bcrypt_hash pw SALT_ROUNDS) ''ADMIN'' True, Disconnect])"
proof -
  from script_unfold [OF assms] obtain handler where
    hd: "handler = handle_error_ts \<or> handler = handle_error_js" and
    run: "\<And>bcrypt_hash w em un pw. createAdminUser bcrypt_hash w em un pw =
      (case validate em un pw of Some f \<Rightarrow> (Inl f, w)
       | None \<Rightarrow> check_and_create handler bcrypt_hash w em un pw)"
    by blast
  let ?a = "FindFirst (toLowerCase em) (toLowerCase un)"
  let ?b = "BcryptHash pw SALT_ROUNDS"
  let ?c = "Create (toLowerCase em) un (bcrypt_hash pw SALT_ROUNDS) ''ADMIN'' True"
  let ?res = "createAdminUser bcrypt_hash w em un pw"
  have c1: "\<forall>f. validate em un pw = Some f \<longrightarrow> ?res = (Inl f, w)"
    by (simp add: run)
  have c2: "\<forall>r w1. validate em un pw = None
      \<and> findFirst w (toLowerCase em) (toLowerCase un) = (Inr (Some r), w1) \<longrightarrow>
      fst ?res \<in> {Inl EmailTaken, Inl UsernameTaken}"
    by (simp add: run check_and_create_found)
  have c3: "fst ?res \<in> {Inl EmailTaken, Inl UsernameTaken} \<longrightarrow>
      snd ?res = w\<lparr>trace := trace w @ [?a]\<rparr>"
  proof (cases "validate em un pw")
    case (Some f)
    then have "f \<noteq> EmailTaken" "f \<noteq> UsernameTaken"
      using assms by (auto simp: validate_ts_def validate_js_def split: if_splits)
    then show ?thesis
      by (simp add: run Some)
  next
    case None
    then show ?thesis
      using check_and_create_conflict_world [OF hd, of bcrypt_hash w em un pw]
      by (simp add: run)
  qed
  have stages: "stages_run w (snd ?res) =
    (if validate em un pw \<noteq> None then []
     else if find_fault w \<noteq> None
           \<or> lookup_result w (toLowerCase em) (toLowerCase un) \<noteq> None
        then [?a]
        else if create_fault w \<noteq> None
           \<or> list_ex (\<lambda>r. email r = toLowerCase em \<or> username r = un) (users w)
        then [?a, ?b, ?c]
        else [?a, ?b, ?c, Disconnect])"
  proof (cases "validate em un pw")
    case (Some f)
    then show ?thesis
      by (simp add: run stages_run_def)
  next
    case None
    then show ?thesis
      by (simp only: run option.case check_and_create_stages Let_def) simp
  qed
  have c4: "stages_run w (snd ?res) \<noteq> [] \<longrightarrow> validate em un pw = None"
    unfolding stages by simp
  have c5: "?b \<in> set (stages_run w (snd ?res)) \<longrightarrow>
      validate em un pw = None \<and> find_fault w = None
      \<and> lookup_result w (toLowerCase em) (toLowerCase un) = None"
    unfolding stages by simp
  have "stages_run w (snd ?res) = take 0 [?a, ?b, ?c, Disconnect]
      \<or> stages_run w (snd ?res) = take 1 [?a, ?b, ?c, Disconnect]
      \<or> stages_run w (snd ?res) = take 3 [?a, ?b, ?c, Disconnect]
      \<or> stages_run w (snd ?res) = take 4 [?a, ?b, ?c, Disconnect]"
    unfolding stages by simp
  then have c6: "\<exists>n. stages_run w (snd ?res) = take n [?a, ?b, ?c, Disconnect]"
    by blast
  from c1 c2 c3 c4 c5 c6 show ?thesis
    by (intro conjI)
qed

text \<open>
  When one account collides with the candidate on both fields, in a store that satisfies
  the uniqueness invariant, the email conflict is reported whichever row the store
  returns.
\<close>

lemma same_account_email_wins:
  assumes "(validate, createAdminUser) = (validate_ts, createAdminUser_ts)
         \<or> (validate, createAdminUser) = (validate_js, createAdminUser_js)"
    and "validate em un pw = None"
    and "find_fault w = None"
    and "unique_ci (users w)"
    and "a \<in> set (users w)"
    and "email a = toLowerCase (email a)"
    and "toLowerCase (email a) = toLowerCase em"
    and "toLowerCase (username a) = toLowerCase un"
  shows "createAdminUser bcrypt_hash w em un pw =
    (Inl EmailTaken, w\<lparr>trace := trace w @ [FindFirst (toLowerCase em) (toLowerCase un)]\<rparr>)"
proof -
  from script_unfold [OF assms(1)] obtain handler where
    run: "\<And>bcrypt_hash w em un pw. createAdminUser bcrypt_hash w em un pw =
      (case validate em un pw of Some f \<Rightarrow> (Inl f, w)
       | None \<Rightarrow> check_and_create handler bcrypt_hash w em un pw)"
    by blast
  let ?P = "\<lambda>r. email r = toLowerCase em \<or> username r = toLowerCase un"
  have "?P a"
    using assms(6,7) by simp
  with assms(5) have "lookup_result w (toLowerCase em) (toLowerCase un) \<noteq> None"
    by (auto simp: lookup_result_None_iff list_ex_iff)
  then obtain r where r: "lookup_result w (toLowerCase em) (toLowerCase un) = Some r"
    by blast
  then have rin: "r \<in> set (users w)" and rP: "?P r"
    by (simp_all add: lookup_result_Some)
  have "toLowerCase (email r) = toLowerCase em"
  proof (cases "email r = toLowerCase em")
    case True
    then show ?thesis by (simp add: toLowerCase_idem)
  next
    case False
    with rP have "username r = toLowerCase un" by simp
    then have "toLowerCase (username r) = toLowerCase (username a)"
      by (simp add: toLowerCase_idem assms(8))
    moreover have "inj_on (\<lambda>r. toLowerCase (username r)) (set (users w))"
      using assms(4) by (simp add: unique_ci_def distinct_map)
    ultimately have "r = a"
      using rin assms(5) by (auto dest: inj_onD)
    then show ?thesis
      using assms(7) by simp
  qed
  then show ?thesis
    by (simp add: run assms(2) check_and_create_found' [OF assms(3) r])
qed

section \<open>Properties of the two scripts\<close>

text \<open>
  C1: provisioning preserves the case-insensitive uniqueness of email and username: in a
  store where both are unique in lower case, a candidate whose email or username matches
  an existing account in lower case gets a conflict and no account is created. The scripts
  do compare in lower case, but the lookup asks the store for the username in lower case,
  while \<^verbatim>\<open>create\<close> stores it as typed. From the empty store the script creates
  \<^verbatim>\<open>Admin\<close>; for the next candidate \<^verbatim>\<open>admin\<close> the lookup finds nothing, the password is
  hashed and a second account is created, and the two usernames are equal in lower case.
\<close>

theorem C1_mixed_case_username_not_found:
  "users (snd (createAdminUser_ts example_hash empty_store ''root@example.com'' ''Admin''
      ''SecurePass123!'')) = users store_one
   \<and> unique_ci (users store_one)
   \<and> username_collides (users store_one) ''admin''
   \<and> fst (createAdminUser_ts example_hash store_one ''new@example.com'' ''admin''
        ''SecurePass123!'')
      = Inr \<lparr>user_id = 2, email = ''new@example.com'', username = ''admin'', role = ''ADMIN'',
           isActive = True, createdAt = 0\<rparr>
   \<and> map username (users (snd (createAdminUser_ts example_hash store_one ''new@example.com''
        ''admin'' ''SecurePass123!''))) = [''Admin'', ''admin'']
   \<and> \<not> unique_ci (users (snd (createAdminUser_ts example_hash store_one ''new@example.com''
        ''admin'' ''SecurePass123!'')))
   \<and> fst (createAdminUser_js example_hash store_one ''new@example.com'' ''admin''
        ''SecurePass123!'')
      = Inr \<lparr>user_id = 2, email = ''new@example.com'', username = ''admin'', role = ''ADMIN'',
           isActive = True, createdAt = 0\<rparr>"
  by code_simp

text \<open>
  C2: the validation checks run in the order email shape, username charset, username
  length, secret minimum length, uppercase, lowercase, digit, special character, and the
  result is the failure kind of the first rule that the candidate violates, or no failure.
  This is so in the TS script for every candidate (minimum length 8). The JS script
  (minimum length 12) first rejects a candidate with an empty field with its own message,
  and follows the eight rules for every other candidate.
\<close>

theorem C2_validation_first_violation:
  "validate_ts em un pw = spec_first_violation (spec_rules 8) (em, un, pw)
   \<and> validate_js em un pw =
       (if em = [] \<or> un = [] \<or> pw = [] then Some MissingFields
        else spec_first_violation (spec_rules 12) (em, un, pw))"
  by (simp add: validate_ts_def validate_js_def spec_rules_def)

theorem C2_validation_first_violation_witness:
  "spec_first_violation (spec_rules 8) (''admin@example.com'', ''ab'', ''short1!'') = Some InvalidUsernameLength
   \<and> spec_first_violation (spec_rules 12) (''admin@example.com'', ''admin'', ''Short1!'') = Some PasswordTooShort"
proof -
  have ts: "validate_ts ''admin@example.com'' ''ab'' ''short1!'' = Some InvalidUsernameLength"
    by code_simp
  have js: "validate_js ''admin@example.com'' ''admin'' ''Short1!'' = Some PasswordTooShort"
    by code_simp
  show ?thesis
    using C2_validation_first_violation [of "''admin@example.com''" "''ab''" "''short1!''"]
      C2_validation_first_violation [of "''admin@example.com''" "''admin''" "''Short1!''"] ts js
    by simp
qed

text \<open>
  In the JS script a candidate with an empty email is told that the three fields are
  required, where the first rule it violates is the email shape.
\<close>

theorem C2_js_required_fields_counterexample:
  "validate_js '''' ''admin'' ''SecurePass123!'' = Some MissingFields
   \<and> spec_first_violation (spec_rules 12) ('''', ''admin'', ''SecurePass123!'') = Some InvalidEmailFormat"
  by code_simp

text \<open>
  C3: a stage never runs unless every earlier stage succeeded: a candidate that fails
  validation gets that failure with no lookup, no hashing and no create, and a valid
  candidate that collides with an existing account gets the conflict with no hashing and
  no create. The first half holds (\<open>stages_follow_success\<close>). The second does not:
  the lookup asks for the username in lower case while the store holds it as typed, so
  for a candidate whose username \<^verbatim>\<open>Admin\<close> is the one of the stored account, the
  lookup finds nothing, the password is hashed and the create is sent; the store rejects
  it with P2002. For the username \<^verbatim>\<open>admin\<close> the create goes through.
\<close>

theorem C3_missed_collision_is_hashed_and_written:
  "validate_ts ''other@example.com'' ''Admin'' ''SecurePass123!'' = None
   \<and> username_collides (users store_one) ''Admin''
   \<and> fst (createAdminUser_ts example_hash store_one ''other@example.com'' ''Admin''
        ''SecurePass123!'') = Inl DuplicateAtWrite
   \<and> stages_run store_one (snd (createAdminUser_ts example_hash store_one ''other@example.com''
        ''Admin'' ''SecurePass123!''))
      = [FindFirst ''other@example.com'' ''admin'', BcryptHash ''SecurePass123!'' 12,
         Create ''other@example.com'' ''Admin'' ''$2b$12$SecurePass123!'' ''ADMIN'' True]
   \<and> validate_js ''other@example.com'' ''Admin'' ''SecurePass123!'' = None
   \<and> fst (createAdminUser_js example_hash store_one ''other@example.com'' ''Admin''
        ''SecurePass123!'') = Inl DuplicateAtWrite
   \<and> stages_run store_one (snd (createAdminUser_js example_hash store_one ''other@example.com''
        ''Admin'' ''SecurePass123!''))
      = [FindFirst ''other@example.com'' ''admin'', BcryptHash ''SecurePass123!'' 12,
         Create ''other@example.com'' ''Admin'' ''$2b$12$SecurePass123!'' ''ADMIN'' True]
   \<and> username_collides (users store_one) ''admin''
   \<and> stages_run store_one (snd (createAdminUser_ts example_hash store_one ''new@example.com''
        ''admin'' ''SecurePass123!''))
      = [FindFirst ''new@example.com'' ''admin'', BcryptHash ''SecurePass123!'' 12,
         Create ''new@example.com'' ''admin'' ''$2b$12$SecurePass123!'' ''ADMIN'' True,
         Disconnect]"
  by code_simp

text \<open>
  C4: for a valid candidate that collides with no account, with the store answering the
  lookup and the write, the run succeeds; the created account has role ADMIN, is active,
  and its stored password is the result of \<^verbatim>\<open>bcrypt.hash\<close>, which differs from the
  plaintext whenever the hash function does not return its input. The value returned is
  the record of the six public fields, none of which is computed from the password or the
  hash.
\<close>

theorem C4_created_account_is_active_admin:
  assumes "(validate, createAdminUser) = (validate_ts, createAdminUser_ts)
         \<or> (validate, createAdminUser) = (validate_js, createAdminUser_js)"
    and "validate em un pw = None"
    and "find_fault w = None" and "create_fault w = None"
    and "\<not> collides (users w) em un"
    and "bcrypt_hash pw SALT_ROUNDS \<noteq> pw"
  shows "\<exists>acct w'. createAdminUser bcrypt_hash w em un pw = (Inr (select_public acct), w')
    \<and> users w' = users w @ [acct]
    \<and> role acct = ''ADMIN'' \<and> isActive acct
    \<and> password acct = bcrypt_hash pw SALT_ROUNDS \<and> password acct \<noteq> pw
    \<and> select_public acct = \<lparr>user_id = next_id w, email = toLowerCase em, username = un,
         role = ''ADMIN'', isActive = True, createdAt = now w\<rparr>"
proof -
  from script_unfold [OF assms(1)] obtain handler where
    run: "\<And>bcrypt_hash w em un pw. createAdminUser bcrypt_hash w em un pw =
      (case validate em un pw of Some f \<Rightarrow> (Inl f, w)
       | None \<Rightarrow> check_and_create handler bcrypt_hash w em un pw)"
    by blast
  define acct where "acct = \<lparr>user_id = next_id w, email = toLowerCase em,
            username = un, role = ''ADMIN'', isActive = True, createdAt = now w,
            password = bcrypt_hash pw SALT_ROUNDS\<rparr>"
  define w' where "w' = w\<lparr>users := users w @ [acct], next_id := Suc (next_id w),
       trace := trace w @ [FindFirst (toLowerCase em) (toLowerCase un),
         BcryptHash pw SALT_ROUNDS,
         Create (toLowerCase em) un (bcrypt_hash pw SALT_ROUNDS) ''ADMIN'' True, Disconnect]\<rparr>"
  have "createAdminUser bcrypt_hash w em un pw = (Inr (select_public acct), w')"
    by (simp add: run assms(2) check_and_create_fresh [OF assms(3,4,5)] acct_def w'_def
        select_public_def)
  moreover have "users w' = users w @ [acct]"
    by (simp add: w'_def)
  moreover have "role acct = ''ADMIN''" "isActive acct"
      "password acct = bcrypt_hash pw SALT_ROUNDS" "password acct \<noteq> pw"
    using assms(6) by (simp_all add: acct_def)
  moreover have "select_public acct = \<lparr>user_id = next_id w, email = toLowerCase em,
         username = un, role = ''ADMIN'', isActive = True, createdAt = now w\<rparr>"
    by (simp add: acct_def select_public_def)
  ultimately show ?thesis
    by blast
qed

theorem C4_created_account_is_active_admin_witness:
  "validate_ts ''admin@example.com'' ''operator'' ''SecurePass123!'' = None
   \<and> \<not> collides (users store_one) ''admin@example.com'' ''operator''
   \<and> example_hash ''SecurePass123!'' SALT_ROUNDS \<noteq> ''SecurePass123!''
   \<and> (\<exists>acct w'. createAdminUser_ts example_hash store_one ''admin@example.com'' ''operator''
          ''SecurePass123!'' = (Inr (select_public acct), w')
        \<and> users w' = users store_one @ [acct]
        \<and> role acct = ''ADMIN'' \<and> isActive acct \<and> password acct \<noteq> ''SecurePass123!'')"
proof -
  have v: "validate_ts ''admin@example.com'' ''operator'' ''SecurePass123!'' = None"
    by code_simp
  have f: "find_fault store_one = None" "create_fault store_one = None"
    by (simp_all add: store_one_def)
  have n: "\<not> collides (users store_one) ''admin@example.com'' ''operator''"
    by code_simp
  have h: "example_hash ''SecurePass123!'' SALT_ROUNDS \<noteq> ''SecurePass123!''"
    by (simp add: example_hash_def)
  note t = C4_created_account_is_active_admin [where validate = validate_ts
      and createAdminUser = createAdminUser_ts and em = "''admin@example.com''"
      and un = "''operator''" and pw = "''SecurePass123!''" and bcrypt_hash = example_hash
      and w = store_one, OF ts_script v f n h]
  from t have "\<exists>acct w'. createAdminUser_ts example_hash store_one ''admin@example.com''
          ''operator'' ''SecurePass123!'' = (Inr (select_public acct), w')
        \<and> users w' = users store_one @ [acct]
        \<and> role acct = ''ADMIN'' \<and> isActive acct \<and> password acct \<noteq> ''SecurePass123!''"
    by blast
  with v n h show ?thesis
    by (intro conjI)
qed

text \<open>
  C5: on every successful run the stored and the returned email are the candidate's email
  in lower case, and the stored and the returned username are the candidate's username
  unchanged.
\<close>

theorem C5_email_lowered_username_kept:
  assumes "(validate, createAdminUser) = (validate_ts, createAdminUser_ts)
         \<or> (validate, createAdminUser) = (validate_js, createAdminUser_js)"
    and "createAdminUser bcrypt_hash w em un pw = (Inr created, w')"
  shows "email created = toLowerCase em \<and> username created = un
    \<and> (\<exists>acct. users w' = users w @ [acct] \<and> select_public acct = created
          \<and> email acct = toLowerCase em \<and> username acct = un)"
proof -
  from script_unfold [OF assms(1)] obtain handler where
    run: "\<And>bcrypt_hash w em un pw. createAdminUser bcrypt_hash w em un pw =
      (case validate em un pw of Some f \<Rightarrow> (Inl f, w)
       | None \<Rightarrow> check_and_create handler bcrypt_hash w em un pw)"
    by blast
  from assms(2) have "check_and_create handler bcrypt_hash w em un pw = (Inr created, w')"
    by (simp add: run split: option.splits)
  from check_and_create_success [OF this] show ?thesis
    by (simp add: select_public_def)
qed

theorem C5_email_lowered_username_kept_witness:
  "\<exists>acct. users (snd (createAdminUser_ts example_hash store_one ''Ops@Example.COM'' ''OpsLead''
        ''SecurePass123!'')) = users store_one @ [acct]
     \<and> email acct = toLowerCase ''Ops@Example.COM'' \<and> username acct = ''OpsLead''"
proof -
  let ?run = "createAdminUser_ts example_hash store_one ''Ops@Example.COM'' ''OpsLead''
        ''SecurePass123!''"
  have "fst ?run = Inr \<lparr>user_id = 2, email = ''ops@example.com'', username = ''OpsLead'',
      role = ''ADMIN'', isActive = True, createdAt = 0\<rparr>"
    by code_simp
  then have "?run = (Inr \<lparr>user_id = 2, email = ''ops@example.com'', username = ''OpsLead'',
      role = ''ADMIN'', isActive = True, createdAt = 0\<rparr>, snd ?run)"
    by (simp add: prod_eq_iff)
  from C5_email_lowered_username_kept [where validate = validate_ts
      and createAdminUser = createAdminUser_ts and em = "''Ops@Example.COM''"
      and un = "''OpsLead''" and pw = "''SecurePass123!''" and bcrypt_hash = example_hash
      and w = store_one, OF ts_script this]
  show ?thesis
    by blast
qed



text \<open>
  C7: store errors are translated into distinct kinds in both scripts: P2002 into the
  report that a user with this email or username exists, P1001 into the report that the
  store is unavailable, P2021 into the report that the schema is missing. The
  \<^verbatim>\<open>catch\<close> block of the JS script has the branches for P2002 and P1001 only: an
  error with code P2021 reaches its last branch, the generic report, where the TS script
  reports the missing schema.
\<close>

theorem C7_js_script_has_no_schema_missing_branch:
  "handle_error_js (JsError (Some ''P2021'')) = UnknownStoreError
   \<and> handle_error_ts (JsError (Some ''P2021'')) = SchemaMissing
   \<and> createAdminUser_js example_hash (empty_store\<lparr>find_fault := Some (JsError (Some ''P2021''))\<rparr>)
        ''admin@example.com'' ''admin'' ''SecurePass123!''
      = (Inl UnknownStoreError, empty_store\<lparr>find_fault := Some (JsError (Some ''P2021'')),
           trace := [FindFirst ''admin@example.com'' ''admin'']\<rparr>)
   \<and> fst (createAdminUser_ts example_hash (empty_store\<lparr>find_fault := Some (JsError (Some ''P2021''))\<rparr>)
        ''admin@example.com'' ''admin'' ''SecurePass123!'') = Inl SchemaMissing
   \<and> handle_error_js (JsError (Some ''P2002'')) = DuplicateAtWrite
   \<and> handle_error_ts (JsError (Some ''P2002'')) = DuplicateAtWrite
   \<and> handle_error_js (JsError (Some ''P1001'')) = StoreUnavailable
   \<and> handle_error_ts (JsError (Some ''P1001'')) = StoreUnavailable"
  by code_simp

text \<open>
  C8: the two scripts run the same eight rules and differ in the minimum secret length, 8
  in the TS script and 12 in the JS script; for a candidate whose email, username and
  secret are not empty and whose secret has at most 7 or at least 12 characters, both
  validations give the same outcome.
\<close>

theorem C8_scripts_agree_outside_8_to_11:
  assumes "em \<noteq> []" and "un \<noteq> []" and "pw \<noteq> []"
  shows "validate_ts em un pw = spec_first_violation (spec_rules 8) (em, un, pw)
    \<and> validate_js em un pw = spec_first_violation (spec_rules 12) (em, un, pw)
    \<and> (length pw \<le> 7 \<or> 12 \<le> length pw \<longrightarrow> validate_js em un pw = validate_ts em un pw)"
  using assms by (auto simp add: validate_ts_def validate_js_def spec_rules_def)

theorem C8_scripts_agree_outside_8_to_11_witness:
  "validate_js ''admin@example.com'' ''admin'' ''short1!'' = Some PasswordTooShort
   \<and> validate_js ''admin@example.com'' ''admin'' ''SecurePass123!'' = None"
proof -
  have ne: "''admin@example.com'' \<noteq> []" "''admin'' \<noteq> []" "''short1!'' \<noteq> []"
      "''SecurePass123!'' \<noteq> []"
    by simp_all
  have short: "length ''short1!'' \<le> 7 \<or> 12 \<le> length ''short1!''"
    by simp
  have long: "length ''SecurePass123!'' \<le> 7 \<or> 12 \<le> length ''SecurePass123!''"
    by simp
  have a: "validate_ts ''admin@example.com'' ''admin'' ''short1!'' = Some PasswordTooShort"
    by code_simp
  have b: "validate_ts ''admin@example.com'' ''admin'' ''SecurePass123!'' = None"
    by code_simp
  have "validate_js ''admin@example.com'' ''admin'' ''short1!''
      = validate_ts ''admin@example.com'' ''admin'' ''short1!''"
    using C8_scripts_agree_outside_8_to_11 [OF ne(1) ne(2) ne(3)] short by blast
  moreover have "validate_js ''admin@example.com'' ''admin'' ''SecurePass123!''
      = validate_ts ''admin@example.com'' ''admin'' ''SecurePass123!''"
    using C8_scripts_agree_outside_8_to_11 [OF ne(1) ne(2) ne(4)] long by blast
  ultimately show ?thesis
    by (simp only: a b)
qed

text \<open>
  C9: whenever the lookup returns a record, a conflict is reported. The record satisfies
  one of the two comparisons in lower case, because it was matched on the candidate's
  email or username in lower case and \<^verbatim>\<open>toLowerCase\<close> is idempotent; so the path that
  falls through both comparisons to hashing is never taken: the run ends with
  \<open>EmailTaken\<close> or \<open>UsernameTaken\<close> in the world the lookup left, whose accounts are
  unchanged and whose only effect is the lookup.
\<close>

theorem C9_found_record_always_conflict:
  assumes "(validate, createAdminUser) = (validate_ts, createAdminUser_ts)
         \<or> (validate, createAdminUser) = (validate_js, createAdminUser_js)"
    and "validate em un pw = None"
    and "findFirst w (toLowerCase em) (toLowerCase un) = (Inr (Some existingUser), w1)"
  shows "(toLowerCase (email existingUser) = toLowerCase em
        \<or> toLowerCase (username existingUser) = toLowerCase un)
    \<and> createAdminUser bcrypt_hash w em un pw =
        (Inl (if toLowerCase (email existingUser) = toLowerCase em then EmailTaken
              else UsernameTaken), w1)
    \<and> users w1 = users w
    \<and> stages_run w w1 = [FindFirst (toLowerCase em) (toLowerCase un)]"
proof -
  from script_unfold [OF assms(1)] obtain handler where
    run: "\<And>bcrypt_hash w em un pw. createAdminUser bcrypt_hash w em un pw =
      (case validate em un pw of Some f \<Rightarrow> (Inl f, w)
       | None \<Rightarrow> check_and_create handler bcrypt_hash w em un pw)"
    by blast
  have "toLowerCase (email existingUser) = toLowerCase em
      \<or> toLowerCase (username existingUser) = toLowerCase un"
    using findFirst_Some(2) [OF assms(3)] by (rule found_matches_ci)
  moreover have "w1 = w\<lparr>trace := trace w @ [FindFirst (toLowerCase em) (toLowerCase un)]\<rparr>"
    using assms(3) by (rule findFirst_Some(3))
  moreover have "createAdminUser bcrypt_hash w em un pw =
        (Inl (if toLowerCase (email existingUser) = toLowerCase em then EmailTaken
              else UsernameTaken), w1)"
    by (simp add: run assms(2) check_and_create_found [OF assms(3)])
  ultimately show ?thesis
    by (simp add: stages_run_def)
qed

theorem C9_found_record_always_conflict_witness:
  "createAdminUser_js example_hash store_two ''bob@example.com'' ''Alice'' ''SecurePass1234!''
     = (Inl EmailTaken, store_two\<lparr>trace := [FindFirst ''bob@example.com'' ''alice'']\<rparr>)"
proof -
  have v: "validate_js ''bob@example.com'' ''Alice'' ''SecurePass1234!'' = None"
    by code_simp
  have f: "findFirst store_two (toLowerCase ''bob@example.com'') (toLowerCase ''Alice'')
      = (Inr (Some \<lparr>user_id = 2, email = ''bob@example.com'', username = ''bob'',
           role = ''ADMIN'', isActive = True, createdAt = 0,
           password = ''$2b$12$SecurePass123!''\<rparr>),
         store_two\<lparr>trace := [FindFirst ''bob@example.com'' ''alice'']\<rparr>)"
    by code_simp
  have e: "(if toLowerCase (email \<lparr>user_id = 2, email = ''bob@example.com'',
           username = ''bob'', role = ''ADMIN'', isActive = True, createdAt = 0,
           password = ''$2b$12$SecurePass123!''\<rparr>) = toLowerCase ''bob@example.com''
       then EmailTaken else UsernameTaken) = EmailTaken"
    by code_simp
  note t = C9_found_record_always_conflict [where validate = validate_js
      and createAdminUser = createAdminUser_js and em = "''bob@example.com''"
      and un = "''Alice''" and pw = "''SecurePass1234!''" and bcrypt_hash = example_hash
      and w = store_two, OF js_script v f]
  from t [THEN conjunct2, THEN conjunct1] show ?thesis
    by (simp only: e)
qed

text \<open>
  C10: with fewer than three arguments both entry points report the missing arguments
  and exit with code 1; the world is unchanged, so neither lookup nor hashing nor create
  happened, and the result does not depend on what the arguments are.
\<close>

theorem C10_missing_arguments:
  assumes "length args < 3"
  shows "main_ts bcrypt_hash w args = (Inl MissingArguments, w)
    \<and> main_js bcrypt_hash w args = (Inl MissingArguments, w)
    \<and> exit_code (fst (main_ts bcrypt_hash w args)) = 1
    \<and> exit_code (fst (main_js bcrypt_hash w args)) = 1"
  using assms by (simp add: main_ts_def main_js_def exit_code_def)

theorem C10_missing_arguments_witness:
  "main_ts example_hash empty_store [''admin@example.com'', ''admin''] = (Inl MissingArguments, empty_store)
   \<and> main_js example_hash empty_store [''not an email''] = (Inl MissingArguments, empty_store)"
  using C10_missing_arguments [of "[''admin@example.com'', ''admin'']" example_hash empty_store]
    C10_missing_arguments [of "[''not an email'']" example_hash empty_store]
  by simp

end
